theory Spec2Isabelle
  imports Main "HOL-Library.Sublist"
begin

section \<open>Data model of gps.cpp\<close>

text \<open>
  \<^verbatim>\<open>using Condition = std::string;\<close> and \<^verbatim>\<open>struct Op\<close> with its four fields.
  A \<^verbatim>\<open>std::list\<close> is a HOL list: order and duplicates are kept.
\<close>

type_synonym Condition = string

record Op =
  action :: string
  preconds :: "Condition list"
  add_list :: "Condition list"
  del_list :: "Condition list"

text \<open>
  The two globals \<^verbatim>\<open>current_state\<close> and \<^verbatim>\<open>current_operations\<close>, together with the
  standard output: \<open>out\<close> holds the text written by each \<^verbatim>\<open>std::printf\<close> call, oldest
  first.
\<close>

record world =
  current_state :: "Condition list"
  current_operations :: "Op list"
  out :: "string list"

section \<open>The standard algorithms the program calls\<close>

text \<open>
  \<^verbatim>\<open>std::find(begin, end, v)\<close>: the position of the first element equal to \<open>v\<close>; the
  end position, which is the length of the list, when there is none.
\<close>

fun std_find :: "'a list \<Rightarrow> 'a \<Rightarrow> nat" where
  "std_find [] v = 0"
| "std_find (x # xs) v = (if x = v then 0 else Suc (std_find xs v))"

definition std_end :: "'a list \<Rightarrow> nat" where
  "std_end xs = length xs"

text \<open>
  \<^verbatim>\<open>std::all_of\<close> and \<^verbatim>\<open>std::any_of\<close> with a predicate that reads and writes the
  globals and may fail to return (\<open>None\<close>). Both visit the elements in order; \<open>all_of\<close>
  stops at the first element the predicate rejects, \<open>any_of\<close> at the first it accepts.
  The state reached so far is kept in either case.
\<close>

fun all_of :: "'a list \<Rightarrow> ('a \<Rightarrow> 's \<Rightarrow> (bool \<times> 's) option) \<Rightarrow> 's \<Rightarrow> (bool \<times> 's) option" where
  "all_of [] p s = Some (True, s)"
| "all_of (x # xs) p s =
     (case p x s of
        None \<Rightarrow> None
      | Some (b, s') \<Rightarrow> if b then all_of xs p s' else Some (False, s'))"

fun any_of :: "'a list \<Rightarrow> ('a \<Rightarrow> 's \<Rightarrow> (bool \<times> 's) option) \<Rightarrow> 's \<Rightarrow> (bool \<times> 's) option" where
  "any_of [] p s = Some (False, s)"
| "any_of (x # xs) p s =
     (case p x s of
        None \<Rightarrow> None
      | Some (b, s') \<Rightarrow> if b then Some (True, s') else any_of xs p s')"

section \<open>The pure functions\<close>

definition complement :: "('a \<Rightarrow> bool) \<Rightarrow> 'a \<Rightarrow> bool" where
  "complement fn = (\<lambda>x. \<not> fn x)"

definition appropriate_p :: "Condition \<Rightarrow> Op \<Rightarrow> bool" where
  "appropriate_p goal op = (std_end (add_list op) \<noteq> std_find (add_list op) goal)"

text \<open>The range-for loops push to the back of \<open>res\<close>, one element of the input at a time.\<close>

definition find_all :: "Condition \<Rightarrow> Op list \<Rightarrow> (Condition \<Rightarrow> Op \<Rightarrow> bool) \<Rightarrow> Op list" where
  "find_all goal ops pred =
     fold (\<lambda>elt res. if pred goal elt then res @ [elt] else res) ops []"

definition set_diff :: "Condition list \<Rightarrow> Condition list \<Rightarrow> Condition list" where
  "set_diff set1 set2 =
     (let ending = std_end set2
      in fold (\<lambda>elt res. if std_find set2 elt = ending then res @ [elt] else res) set1 [])"

text \<open>
  The second loop of \<^verbatim>\<open>set_union\<close> runs over \<open>set2\<close> and looks each element up in
  \<open>set2\<close> itself, as line 136 of the source does.
\<close>

definition set_union :: "Condition list \<Rightarrow> Condition list \<Rightarrow> Condition list" where
  "set_union set1 set2 =
     (let res = fold (\<lambda>elt res. res @ [elt]) set1 [];
          ending = std_end set2
      in fold (\<lambda>elt res. if std_find set2 elt = ending then res @ [elt] else res) set2 res)"

section \<open>The planner\<close>

definition executing :: "string \<Rightarrow> string" where
  "executing a = ''Executing operation: '' @ a @ ''.\<newline>''"

text \<open>
  \<^verbatim>\<open>achieve\<close> and \<^verbatim>\<open>apply_op\<close> call each other with no bound in the source. The first
  argument is the number of nested calls still allowed: every call of either function
  uses one, and \<open>None\<close> means that the allowance ran out before the call returned.

  \<^verbatim>\<open>achieve\<close> computes \<open>left\<close> from the state it is entered with, then builds the
  candidates and runs \<^verbatim>\<open>std::any_of\<close> over them whatever \<open>left\<close> is, and returns
  \<open>left || right\<close> at the end.
\<close>

fun achieve :: "nat \<Rightarrow> Condition \<Rightarrow> world \<Rightarrow> (bool \<times> world) option"
  and apply_op :: "nat \<Rightarrow> Op \<Rightarrow> world \<Rightarrow> (bool \<times> world) option" where
  "achieve 0 goal w = None"
| "achieve (Suc n) goal w =
     (let left = (std_end (current_state w) \<noteq> std_find (current_state w) goal);
          candidates = find_all goal (current_operations w) appropriate_p
      in case any_of candidates (\<lambda>op w'. apply_op n op w') w of
           None \<Rightarrow> None
         | Some (right, w') \<Rightarrow> Some (left \<or> right, w'))"
| "apply_op 0 op w = None"
| "apply_op (Suc n) op w =
     (case all_of (preconds op) (\<lambda>goal w'. achieve n goal w') w of
        None \<Rightarrow> None
      | Some (ok, w1) \<Rightarrow>
          if ok then
            let w2 = w1\<lparr>out := out w1 @ [executing (action op)]\<rparr>;
                w3 = w2\<lparr>current_state := set_diff (current_state w2) (del_list op)\<rparr>;
                w4 = w3\<lparr>current_state := set_union (current_state w3) (add_list op)\<rparr>
            in Some (True, w4)
          else Some (False, w1))"

text \<open>
  \<^verbatim>\<open>GPS(state, goals, ops)\<close>: the body mentions neither \<open>state\<close> nor \<open>ops\<close>.
\<close>

definition GPS :: "nat \<Rightarrow> Condition list \<Rightarrow> Condition list \<Rightarrow> Op list \<Rightarrow> world \<Rightarrow> world option" where
  "GPS n state goals ops w =
     (case all_of goals (\<lambda>goal w'. achieve n goal w') w of
        None \<Rightarrow> None
      | Some (ok, w') \<Rightarrow>
          Some (w'\<lparr>out := out w' @ [if ok then ''SOLVED.\<newline>'' else ''FAILED.\<newline>'']\<rparr>))"

section \<open>The sample problem of main\<close>

definition even_p :: "int \<Rightarrow> bool" where
  "even_p n = (n mod 2 = 0)"

definition odd_p :: "int \<Rightarrow> bool" where
  "odd_p = complement even_p"

definition son_at_home :: Condition where "son_at_home = ''son-at-home''"
definition car_works :: Condition where "car_works = ''car-works''"
definition son_at_school :: Condition where "son_at_school = ''son-at-school''"
definition car_needs_battery :: Condition where "car_needs_battery = ''car-needs-battery''"
definition shop_knows_problem :: Condition where "shop_knows_problem = ''shop-knows-problem''"
definition shop_has_money :: Condition where "shop_has_money = ''shop-has-money''"
definition know_phone_number :: Condition where "know_phone_number = ''know-phone-number''"
definition in_communication_with_shop :: Condition where
  "in_communication_with_shop = ''in-communication-with-shop''"
definition have_phone_book :: Condition where "have_phone_book = ''have-phone-book''"
definition have_money :: Condition where "have_money = ''have-money''"

definition mk_Op :: "string \<Rightarrow> Condition list \<Rightarrow> Condition list \<Rightarrow> Condition list \<Rightarrow> Op" where
  "mk_Op a p ad dl = \<lparr>action = a, preconds = p, add_list = ad, del_list = dl\<rparr>"

definition school_state :: "Condition list" where
  "school_state = [son_at_home, car_needs_battery, have_money, have_phone_book]"

definition school_ops :: "Op list" where
  "school_ops =
    [mk_Op ''drive-son-to-school'' [son_at_home, car_works] [son_at_school] [son_at_home],
     mk_Op ''shop-installs-battery'' [car_needs_battery, shop_knows_problem, shop_has_money]
       [car_works] [],
     mk_Op ''tell-shop-problem'' [in_communication_with_shop] [shop_knows_problem] [],
     mk_Op ''telephone-shop'' [know_phone_number] [in_communication_with_shop] [],
     mk_Op ''look-up-number'' [have_phone_book] [know_phone_number] [],
     mk_Op ''give-shop-money'' [have_money] [shop_has_money] [have_money]]"

text \<open>
  \<^verbatim>\<open>main\<close> prints the line about \<open>complement\<close>, assigns the two globals and calls
  \<^verbatim>\<open>GPS\<close>. The globals start empty and nothing has been printed.
\<close>

definition main :: "nat \<Rightarrow> world option" where
  "main n =
     (let w0 = \<lparr>current_state = [], current_operations = [], out = []\<rparr>;
          w1 = w0\<lparr>out := out w0 @
                 [''2 is even: '' @ (if \<not> odd_p 2 then ''1'' else ''0'') @ ''\<newline>'']\<rparr>;
          w2 = w1\<lparr>current_state := school_state\<rparr>;
          w3 = w2\<lparr>current_operations := school_ops\<rparr>
      in GPS n (current_state w3) [son_at_school] (current_operations w3) w3)"

text \<open>
  The relation between the globals before and after a call that the planner keeps: the
  later \<open>current_state\<close> is the earlier one with some elements left out.
\<close>

definition shrinks :: "world \<Rightarrow> world \<Rightarrow> bool" where
  "shrinks w w' = subseq (current_state w') (current_state w)"

section \<open>Facts about the standard algorithms and the loops\<close>

lemma std_find_end_iff: "std_find xs v = std_end xs \<longleftrightarrow> v \<notin> set xs"
proof (induction xs)
  case Nil
  show ?case by (simp add: std_end_def)
next
  case (Cons x xs)
  then show ?case by (auto simp: std_end_def)
qed

lemma push_back_if_loop:
  "fold (\<lambda>elt res. if P elt then res @ [elt] else res) xs acc = acc @ filter P xs"
  by (induction xs arbitrary: acc) simp_all

lemma push_back_loop: "fold (\<lambda>elt res. res @ [elt]) xs acc = acc @ xs"
  by (induction xs arbitrary: acc) simp_all

lemma set_diff_filter: "set_diff set1 set2 = filter (\<lambda>elt. elt \<notin> set set2) set1"
  by (simp add: set_diff_def push_back_if_loop std_find_end_iff)

lemma set_union_left: "set_union set1 set2 = set1"
proof -
  have "filter (\<lambda>elt. elt \<notin> set set2) set2 = []"
    by (simp add: filter_empty_conv)
  then show ?thesis
    by (simp add: set_union_def push_back_loop push_back_if_loop std_find_end_iff)
qed

lemma find_all_filter: "find_all goal ops pred = filter (pred goal) ops"
  by (simp add: find_all_def push_back_if_loop)

lemma appropriate_p_iff: "appropriate_p goal op \<longleftrightarrow> goal \<in> set (add_list op)"
  using std_find_end_iff [of "add_list op" goal] by (auto simp: appropriate_p_def)

section \<open>More nested calls allowed never change a result\<close>

lemmas achieve_Suc = achieve.simps(2)
lemmas apply_op_Suc = apply_op.simps(2)
declare achieve.simps(2) [simp del] apply_op.simps(2) [simp del]

lemma all_of_mono:
  assumes "\<And>x s r. p x s = Some r \<Longrightarrow> q x s = Some r"
    and "all_of xs p s = Some r"
  shows "all_of xs q s = Some r"
  using assms(2)
proof (induction xs arbitrary: s)
  case Nil
  then show ?case by simp
next
  case (Cons x xs)
  from Cons.prems obtain b s' where px: "p x s = Some (b, s')"
    by (auto split: option.splits)
  then have qx: "q x s = Some (b, s')" by (rule assms(1))
  show ?case using Cons.prems Cons.IH [of s'] px qx by (simp split: if_splits)
qed

lemma any_of_mono:
  assumes "\<And>x s r. p x s = Some r \<Longrightarrow> q x s = Some r"
    and "any_of xs p s = Some r"
  shows "any_of xs q s = Some r"
  using assms(2)
proof (induction xs arbitrary: s)
  case Nil
  then show ?case by simp
next
  case (Cons x xs)
  from Cons.prems obtain b s' where px: "p x s = Some (b, s')"
    by (auto split: option.splits)
  then have qx: "q x s = Some (b, s')" by (rule assms(1))
  show ?case using Cons.prems Cons.IH [of s'] px qx by (simp split: if_splits)
qed

lemma fuel_Suc:
  "(\<forall>goal w r. achieve n goal w = Some r \<longrightarrow> achieve (Suc n) goal w = Some r) \<and>
   (\<forall>op w r. apply_op n op w = Some r \<longrightarrow> apply_op (Suc n) op w = Some r)"
proof (induction n)
  case 0
  show ?case by simp
next
  case (Suc n)
  have ach: "achieve (Suc (Suc n)) goal w = Some r" if h: "achieve (Suc n) goal w = Some r" for goal w r
  proof -
    let ?c = "find_all goal (current_operations w) appropriate_p"
    from h obtain b w' where a: "any_of ?c (\<lambda>op w'. apply_op n op w') w = Some (b, w')"
      by (auto simp: achieve_Suc Let_def split: option.splits)
    have "any_of ?c (\<lambda>op w'. apply_op (Suc n) op w') w = Some (b, w')"
      using Suc.IH a by (blast intro: any_of_mono [where p = "\<lambda>op w'. apply_op n op w'"])
    with h a show ?thesis by (simp add: achieve_Suc Let_def)
  qed
  have app: "apply_op (Suc (Suc n)) op w = Some r" if h: "apply_op (Suc n) op w = Some r" for op w r
  proof -
    from h obtain b w' where a: "all_of (preconds op) (\<lambda>g w'. achieve n g w') w = Some (b, w')"
      by (auto simp: apply_op_Suc split: option.splits)
    have "all_of (preconds op) (\<lambda>g w'. achieve (Suc n) g w') w = Some (b, w')"
      using Suc.IH a by (blast intro: all_of_mono [where p = "\<lambda>g w'. achieve n g w'"])
    with h a show ?thesis by (simp add: apply_op_Suc)
  qed
  from ach app show ?case by blast
qed

lemma achieve_fuel: "achieve n goal w = Some r \<Longrightarrow> achieve (n + k) goal w = Some r"
  by (induction k) (simp_all add: fuel_Suc)

lemma apply_op_fuel: "apply_op n op w = Some r \<Longrightarrow> apply_op (n + k) op w = Some r"
  by (induction k) (simp_all add: fuel_Suc)

lemma GPS_fuel: "GPS n st goals ops w = Some r \<Longrightarrow> GPS (n + k) st goals ops w = Some r"
proof -
  assume h: "GPS n st goals ops w = Some r"
  then obtain b w' where a: "all_of goals (\<lambda>g w'. achieve n g w') w = Some (b, w')"
    by (auto simp: GPS_def split: option.splits)
  have "all_of goals (\<lambda>g w'. achieve (n + k) g w') w = Some (b, w')"
    using a by (blast intro: all_of_mono [where p = "\<lambda>g w'. achieve n g w'"] achieve_fuel)
  with h a show ?thesis by (simp add: GPS_def)
qed

lemma main_fuel: "main n = Some r \<Longrightarrow> main (n + k) = Some r"
  by (simp add: main_def Let_def GPS_fuel)

section \<open>The state only loses conditions\<close>

lemma shrinks_refl: "shrinks w w"
  by (simp add: shrinks_def)

lemma shrinks_trans: "shrinks a b \<Longrightarrow> shrinks b c \<Longrightarrow> shrinks a c"
  unfolding shrinks_def by (rule subseq_order.trans)

lemma subseq_set: "subseq xs ys \<Longrightarrow> set xs \<subseteq> set ys"
  by (auto elim: list_emb_set)

lemma all_of_shrinks:
  assumes "\<And>x s b s'. p x s = Some (b, s') \<Longrightarrow> shrinks s s'"
    and "all_of xs p s = Some (b, s')"
  shows "shrinks s s'"
  using assms(2)
proof (induction xs arbitrary: s)
  case Nil
  then show ?case by (simp add: shrinks_refl)
next
  case (Cons x xs)
  from Cons.prems obtain c t where px: "p x s = Some (c, t)"
    by (auto split: option.splits)
  have st: "shrinks s t" using px by (rule assms(1))
  show ?case
  proof (cases c)
    case True
    with Cons.prems px have "all_of xs p t = Some (b, s')" by simp
    then have "shrinks t s'" by (rule Cons.IH)
    with st show ?thesis by (rule shrinks_trans)
  next
    case False
    with Cons.prems px have "s' = t" by simp
    with st show ?thesis by simp
  qed
qed

lemma any_of_shrinks:
  assumes "\<And>x s b s'. p x s = Some (b, s') \<Longrightarrow> shrinks s s'"
    and "any_of xs p s = Some (b, s')"
  shows "shrinks s s'"
  using assms(2)
proof (induction xs arbitrary: s)
  case Nil
  then show ?case by (simp add: shrinks_refl)
next
  case (Cons x xs)
  from Cons.prems obtain c t where px: "p x s = Some (c, t)"
    by (auto split: option.splits)
  have st: "shrinks s t" using px by (rule assms(1))
  show ?case
  proof (cases c)
    case False
    with Cons.prems px have "any_of xs p t = Some (b, s')" by simp
    then have "shrinks t s'" by (rule Cons.IH)
    with st show ?thesis by (rule shrinks_trans)
  next
    case True
    with Cons.prems px have "s' = t" by simp
    with st show ?thesis by simp
  qed
qed

text \<open>Both functions at once, by induction on the number of nested calls allowed.\<close>

lemma planner_shrinks:
  "(\<forall>goal w b w'. achieve n goal w = Some (b, w') \<longrightarrow> shrinks w w') \<and>
   (\<forall>op w b w'. apply_op n op w = Some (b, w') \<longrightarrow> shrinks w w')"
proof (induction n)
  case 0
  show ?case by simp
next
  case (Suc n)
  have ach: "shrinks w w'" if h: "achieve (Suc n) goal w = Some (b, w')" for goal w b w'
  proof -
    from h obtain c where
      "any_of (find_all goal (current_operations w) appropriate_p) (\<lambda>op v. apply_op n op v) w
         = Some (c, w')"
      by (auto simp: achieve_Suc Let_def split: option.splits)
    then show ?thesis using Suc.IH by (blast intro: any_of_shrinks)
  qed
  have app: "shrinks w w'" if h: "apply_op (Suc n) op w = Some (b, w')" for op w b w'
  proof -
    from h obtain c w1 where a: "all_of (preconds op) (\<lambda>g v. achieve n g v) w = Some (c, w1)"
      by (auto simp: apply_op_Suc split: option.splits)
    have s1: "shrinks w w1" using a Suc.IH by (blast intro: all_of_shrinks)
    show ?thesis
    proof (cases c)
      case True
      with h a have "current_state w' = set_diff (current_state w1) (del_list op)"
        by (auto simp: apply_op_Suc Let_def set_union_left)
      then have "shrinks w1 w'" by (simp add: shrinks_def set_diff_filter)
      with s1 show ?thesis by (rule shrinks_trans)
    next
      case False
      with h a have "w' = w1" by (simp add: apply_op_Suc)
      with s1 show ?thesis by simp
    qed
  qed
  from ach app show ?case by blast
qed

lemma GPS_shrinks:
  assumes h: "GPS n st goals ops w = Some w'"
  shows "shrinks w w'"
proof -
  from h obtain b w1 where a: "all_of goals (\<lambda>g v. achieve n g v) w = Some (b, w1)"
    and c: "current_state w' = current_state w1"
    by (auto simp: GPS_def split: option.splits)
  have "shrinks w w1" using a planner_shrinks [of n] by (blast intro: all_of_shrinks)
  with c show ?thesis by (simp add: shrinks_def)
qed

section \<open>The sample run\<close>

lemma main_11:
  "main 11 =
     Some \<lparr>current_state = [''car-needs-battery'', ''have-phone-book''],
           current_operations = school_ops,
           out = [''2 is even: 1\<newline>'',
                  ''Executing operation: look-up-number.\<newline>'',
                  ''Executing operation: telephone-shop.\<newline>'',
                  ''Executing operation: tell-shop-problem.\<newline>'',
                  ''Executing operation: give-shop-money.\<newline>'',
                  ''Executing operation: shop-installs-battery.\<newline>'',
                  ''Executing operation: drive-son-to-school.\<newline>'',
                  ''SOLVED.\<newline>'']\<rparr>"
  by code_simp

text \<open>Ten nested calls are not enough: the chain of preconditions is eleven calls deep.\<close>

lemma main_10: "main 10 = None"
  by code_simp

text \<open>
  A goal that is in the state and is a precondition of an action that adds it: every
  call of \<^verbatim>\<open>achieve\<close> reaches \<^verbatim>\<open>apply_op\<close>, which calls \<^verbatim>\<open>achieve\<close> on the
  same goal and the same state again, so no allowance of nested calls is enough.
\<close>

lemma achieve_member_no_return:
  "achieve n ''g''
     \<lparr>current_state = [''g''], current_operations = [mk_Op ''a'' [''g''] [''g''] []], out = []\<rparr>
   = None"
proof (induction n rule: less_induct)
  case (less n)
  show ?case
  proof (cases n)
    case 0
    then show ?thesis by simp
  next
    case (Suc m)
    note n_m = this
    show ?thesis
    proof (cases m)
      case 0
      with n_m show ?thesis
        by (simp add: achieve_Suc find_all_filter appropriate_p_iff mk_Op_def)
    next
      case (Suc k)
      with n_m have "k < n" by simp
      from less [OF this] n_m Suc show ?thesis
        by (simp add: achieve_Suc apply_op_Suc find_all_filter appropriate_p_iff mk_Op_def)
    qed
  qed
qed

section \<open>The claims\<close>

text \<open>
  C1. The claim: a successful \<^verbatim>\<open>apply_op(op)\<close> removes the deletes of \<open>op\<close> and then
  adds its adds, so that every element of \<open>add_list\<close> is in the state afterwards, also one
  that is in \<open>del_list\<close> too. The code at an action with no precondition, \<open>x\<close> in both
  lists and the state \<open>[x]\<close>: the call succeeds and prints its line, and the state is
  empty afterwards, so \<open>x\<close> is not in it. This holds for every allowance of at least one
  call.
\<close>

theorem apply_op_loses_added_condition:
  "apply_op (Suc n) (mk_Op ''a'' [] [''x''] [''x''])
     \<lparr>current_state = [''x''], current_operations = [], out = []\<rparr>
   = Some (True, \<lparr>current_state = [], current_operations = [],
                   out = [''Executing operation: a.\<newline>'']\<rparr>)"
  by (simp add: apply_op_Suc mk_Op_def set_union_left set_diff_filter executing_def)

text \<open>
  C2. The claim: when the goal is in the state, \<^verbatim>\<open>achieve\<close> returns true before any
  candidate is tried, changes nothing and prints nothing. The code at the state \<open>[g]\<close>
  and one action with no precondition that adds and deletes \<open>g\<close>: the call returns true,
  and it has applied the action, printed its line and emptied the state. This holds for
  every allowance of at least two calls.
\<close>

theorem achieve_member_applies_candidate:
  "achieve (Suc (Suc n)) ''g''
     \<lparr>current_state = [''g''], current_operations = [mk_Op ''a'' [] [''g''] [''g'']], out = []\<rparr>
   = Some (True, \<lparr>current_state = [], current_operations = [mk_Op ''a'' [] [''g''] [''g'']],
                   out = [''Executing operation: a.\<newline>'']\<rparr>)"
  by (simp add: achieve_Suc apply_op_Suc find_all_filter appropriate_p_iff mk_Op_def
      set_union_left set_diff_filter executing_def std_end_def)

text \<open>
  C3. The sample problem of \<^verbatim>\<open>main\<close>: with any allowance of at least eleven nested
  calls the run returns, its output is the line about \<open>complement\<close>, then the six
  actions look-up-number, telephone-shop, tell-shop-problem, give-shop-money,
  shop-installs-battery, drive-son-to-school in that order, then SOLVED. The state left
  behind is given too.
\<close>

theorem main_son_to_school_solved:
  "main (11 + k) =
     Some \<lparr>current_state = [''car-needs-battery'', ''have-phone-book''],
           current_operations = school_ops,
           out = [''2 is even: 1\<newline>'',
                  ''Executing operation: look-up-number.\<newline>'',
                  ''Executing operation: telephone-shop.\<newline>'',
                  ''Executing operation: tell-shop-problem.\<newline>'',
                  ''Executing operation: give-shop-money.\<newline>'',
                  ''Executing operation: shop-installs-battery.\<newline>'',
                  ''Executing operation: drive-son-to-school.\<newline>'',
                  ''SOLVED.\<newline>'']\<rparr>"
  using main_11 by (rule main_fuel)

text \<open>
  C4. The claim: the result of \<^verbatim>\<open>set_union(A, B)\<close> contains every element of \<open>A\<close> and
  every element of \<open>B\<close>. The code at \<open>A = []\<close>, \<open>B = [x]\<close>: the result is empty, and
  \<open>x\<close> is not in it.
\<close>

theorem set_union_drops_second_list:
  "set_union [] [''x''] = [] \<and> ''x'' \<notin> set (set_union [] [''x''])"
  by (simp add: set_union_left)

text \<open>
  C5. The claim: after a call of \<^verbatim>\<open>achieve(goal)\<close> that returned true, a second call
  prints nothing more. The code at the empty state and one action with no precondition
  that adds \<open>g\<close>: the first call returns true and prints one line; the second call, from
  the globals and the output the first one left, returns true and prints the line again.
\<close>

theorem achieve_twice_prints_twice:
  "achieve (Suc (Suc n)) ''g''
     \<lparr>current_state = [], current_operations = [mk_Op ''a'' [] [''g''] []], out = []\<rparr>
   = Some (True, \<lparr>current_state = [], current_operations = [mk_Op ''a'' [] [''g''] []],
                   out = [''Executing operation: a.\<newline>'']\<rparr>) \<and>
   achieve (Suc (Suc m)) ''g''
     \<lparr>current_state = [], current_operations = [mk_Op ''a'' [] [''g''] []],
        out = [''Executing operation: a.\<newline>'']\<rparr>
   = Some (True, \<lparr>current_state = [], current_operations = [mk_Op ''a'' [] [''g''] []],
                   out = [''Executing operation: a.\<newline>'',
                          ''Executing operation: a.\<newline>'']\<rparr>)"
  by (simp add: achieve_Suc apply_op_Suc find_all_filter appropriate_p_iff mk_Op_def
      set_union_left set_diff_filter executing_def std_end_def)

text \<open>
  C6. When the goal is not in the state and no action of the library has it in its
  \<open>add_list\<close>, \<^verbatim>\<open>achieve\<close> returns (one call is all it takes), it returns false, and
  the globals and the output are what they were.
\<close>

theorem achieve_no_candidate_fails:
  assumes "goal \<notin> set (current_state w)"
    and "\<forall>op \<in> set (current_operations w). goal \<notin> set (add_list op)"
  shows "achieve (Suc n) goal w = Some (False, w)"
  using assms
  by (simp add: achieve_Suc find_all_filter appropriate_p_iff std_find_end_iff [symmetric]
      filter_empty_conv)

theorem achieve_no_candidate_fails_witness:
  "''g'' \<notin> set [''x''] \<and>
   ''g'' \<notin> set (add_list (mk_Op ''a'' [] [''h''] [''x''])) \<and>
   achieve (Suc 0) ''g''
     \<lparr>current_state = [''x''], current_operations = [mk_Op ''a'' [] [''h''] [''x'']], out = []\<rparr>
   = Some (False,
       \<lparr>current_state = [''x''], current_operations = [mk_Op ''a'' [] [''h''] [''x'']], out = []\<rparr>)"
proof -
  let ?w = "\<lparr>current_state = [''x''], current_operations = [mk_Op ''a'' [] [''h''] [''x'']],
             out = []\<rparr>"
  have h1: "''g'' \<notin> set (current_state ?w)" by simp
  have h2: "\<forall>op \<in> set (current_operations ?w). ''g'' \<notin> set (add_list op)"
    by (simp add: mk_Op_def)
  have r: "achieve (Suc 0) ''g'' ?w = Some (False, ?w)"
    using h1 h2 by (rule achieve_no_candidate_fails)
  from h1 h2 r show ?thesis by simp
qed

text \<open>
  C7. \<^verbatim>\<open>set_diff(A, B)\<close> is the elements of \<open>A\<close> that are not in \<open>B\<close>, in the order
  of \<open>A\<close>; \<^verbatim>\<open>set_diff(A, A)\<close> is empty, and so is \<^verbatim>\<open>set_diff\<close> of the empty list
  and any \<open>B\<close>.
\<close>

theorem set_diff_correct:
  "set_diff A B = filter (\<lambda>elt. elt \<notin> set B) A \<and> set_diff A A = [] \<and> set_diff [] B = []"
  by (simp add: set_diff_filter filter_empty_conv)

text \<open>
  C8. \<^verbatim>\<open>set_union(s1, s2)\<close> is \<open>s1\<close>. So what \<^verbatim>\<open>apply_op(op)\<close> returns, prints and
  leaves in the globals does not depend on the \<open>add_list\<close> of \<open>op\<close>, and every condition
  in the state after the call was in the state before it.
\<close>

theorem set_union_is_first_list:
  "set_union s1 s2 = s1 \<and>
   apply_op n (op\<lparr>add_list := al\<rparr>) w = apply_op n op w \<and>
   (apply_op n op w = Some (b, w') \<longrightarrow> set (current_state w') \<subseteq> set (current_state w))"
proof -
  have a: "set_union s1 s2 = s1" by (rule set_union_left)
  have b: "apply_op n (op\<lparr>add_list := al\<rparr>) w = apply_op n op w"
    by (cases n) (simp_all add: apply_op_Suc set_union_left Let_def split: option.splits)
  have c: "set (current_state w') \<subseteq> set (current_state w)"
    if "apply_op n op w = Some (b, w')"
  proof -
    from that planner_shrinks [of n] have "shrinks w w'" by blast
    then show ?thesis unfolding shrinks_def by (rule subseq_set)
  qed
  from a b c show ?thesis by blast
qed

theorem set_union_is_first_list_witness:
  "apply_op 1 (mk_Op ''a'' [] [''g''] [])
     \<lparr>current_state = [''x''], current_operations = [], out = []\<rparr>
   = Some (True, \<lparr>current_state = [''x''], current_operations = [],
                   out = [''Executing operation: a.\<newline>'']\<rparr>) \<and>
   set (current_state \<lparr>current_state = [''x''], current_operations = [],
                       out = [''Executing operation: a.\<newline>'']\<rparr>)
     \<subseteq> set (current_state \<lparr>current_state = [''x''], current_operations = [], out = []\<rparr>)"
proof -
  let ?op = "mk_Op ''a'' [] [''g''] []"
  let ?w = "\<lparr>current_state = [''x''], current_operations = [], out = []\<rparr>"
  let ?w' = "\<lparr>current_state = [''x''], current_operations = [],
              out = [''Executing operation: a.\<newline>'']\<rparr>"
  have e: "apply_op 1 ?op ?w = Some (True, ?w')" by code_simp
  note t = set_union_is_first_list [where n = 1 and op = ?op and w = ?w and b = True and w' = ?w']
  from t have "apply_op 1 ?op ?w = Some (True, ?w') \<longrightarrow>
      set (current_state ?w') \<subseteq> set (current_state ?w)"
    by (rule conjunct2 [THEN conjunct2])
  then have s: "set (current_state ?w') \<subseteq> set (current_state ?w)" using e by (rule mp)
  from e s show ?thesis by (rule conjI)
qed

text \<open>
  C9. Whenever \<^verbatim>\<open>achieve\<close>, \<^verbatim>\<open>apply_op\<close> or \<^verbatim>\<open>GPS\<close> returns, the
  \<open>current_state\<close> it leaves is a subsequence of the \<open>current_state\<close> it was called
  with: conditions are removed, never added.
\<close>

theorem current_state_never_grows:
  "(achieve n goal w = Some (b, w') \<longrightarrow> subseq (current_state w') (current_state w)) \<and>
   (apply_op n op w = Some (b, w') \<longrightarrow> subseq (current_state w') (current_state w)) \<and>
   (GPS n st goals ops w = Some w' \<longrightarrow> subseq (current_state w') (current_state w))"
  using planner_shrinks [of n] GPS_shrinks [of n st goals ops w w']
  by (auto simp: shrinks_def)

theorem current_state_never_grows_witness:
  "achieve 2 ''g''
     \<lparr>current_state = [''x''], current_operations = [mk_Op ''a'' [] [''g''] [''x'']], out = []\<rparr>
   = Some (True, \<lparr>current_state = [], current_operations = [mk_Op ''a'' [] [''g''] [''x'']],
                   out = [''Executing operation: a.\<newline>'']\<rparr>) \<and>
   subseq
     (current_state \<lparr>current_state = [], current_operations = [mk_Op ''a'' [] [''g''] [''x'']],
                     out = [''Executing operation: a.\<newline>'']\<rparr>)
     (current_state \<lparr>current_state = [''x''],
                     current_operations = [mk_Op ''a'' [] [''g''] [''x'']], out = []\<rparr>) \<and>
   apply_op 1 (mk_Op ''a'' [] [''g''] [''x''])
     \<lparr>current_state = [''x'', ''y''], current_operations = [], out = []\<rparr>
   = Some (True, \<lparr>current_state = [''y''], current_operations = [],
                   out = [''Executing operation: a.\<newline>'']\<rparr>) \<and>
   subseq
     (current_state \<lparr>current_state = [''y''], current_operations = [],
                     out = [''Executing operation: a.\<newline>'']\<rparr>)
     (current_state \<lparr>current_state = [''x'', ''y''], current_operations = [], out = []\<rparr>) \<and>
   GPS 2 [] [''g''] []
     \<lparr>current_state = [''x''], current_operations = [mk_Op ''a'' [] [''g''] [''x'']], out = []\<rparr>
   = Some \<lparr>current_state = [], current_operations = [mk_Op ''a'' [] [''g''] [''x'']],
            out = [''Executing operation: a.\<newline>'', ''SOLVED.\<newline>'']\<rparr> \<and>
   subseq
     (current_state \<lparr>current_state = [], current_operations = [mk_Op ''a'' [] [''g''] [''x'']],
                     out = [''Executing operation: a.\<newline>'', ''SOLVED.\<newline>'']\<rparr>)
     (current_state \<lparr>current_state = [''x''],
                     current_operations = [mk_Op ''a'' [] [''g''] [''x'']], out = []\<rparr>)"
proof -
  let ?op = "mk_Op ''a'' [] [''g''] [''x'']"
  let ?w = "\<lparr>current_state = [''x''], current_operations = [?op], out = []\<rparr>"
  let ?w' = "\<lparr>current_state = [], current_operations = [?op],
              out = [''Executing operation: a.\<newline>'']\<rparr>"
  let ?v = "\<lparr>current_state = [''x'', ''y''], current_operations = [], out = []\<rparr>"
  let ?v' = "\<lparr>current_state = [''y''], current_operations = [],
              out = [''Executing operation: a.\<newline>'']\<rparr>"
  let ?u' = "\<lparr>current_state = [], current_operations = [?op],
              out = [''Executing operation: a.\<newline>'', ''SOLVED.\<newline>'']\<rparr>"
  have e1: "achieve 2 ''g'' ?w = Some (True, ?w')" by code_simp
  have e2: "apply_op 1 ?op ?v = Some (True, ?v')" by code_simp
  have e3: "GPS 2 [] [''g''] [] ?w = Some ?u'" by code_simp
  have s1: "subseq (current_state ?w') (current_state ?w)"
    using current_state_never_grows [where n = 2 and goal = "''g''" and w = ?w and b = True
        and w' = ?w', THEN conjunct1] e1
    by (rule mp)
  have s2: "subseq (current_state ?v') (current_state ?v)"
    using current_state_never_grows [where n = 1 and op = ?op and w = ?v and b = True
        and w' = ?v', THEN conjunct2, THEN conjunct1] e2
    by (rule mp)
  have s3: "subseq (current_state ?u') (current_state ?w)"
    using current_state_never_grows [where n = 2 and st = "[]" and goals = "[''g'']"
        and ops = "[]" and w = ?w and w' = ?u', THEN conjunct2, THEN conjunct2] e3
    by (rule mp)
  show ?thesis by (intro conjI) (rule e1 s1 e2 s2 e3 s3)+
qed

text \<open>
  C10. \<^verbatim>\<open>GPS\<close> does not read its first and third parameter: with the same globals,
  the same output so far, the same goals and the same allowance, any two values of
  \<open>state\<close> and of \<open>ops\<close> give the same result, that is the same output, SOLVED or FAILED
  included, and the same globals afterwards; and the call returns for the one pair
  exactly when it does for the other.
\<close>

theorem GPS_ignores_state_and_ops:
  "GPS n state1 goals ops1 w = GPS n state2 goals ops2 w"
  by (simp add: GPS_def)

end
